theory Spec2Isabelle
  imports Main "HOL-Library.Multiset"
begin

section \<open>Values of a JSON request body\<close>

text \<open>
  The Express handlers of \<^verbatim>\<open>server/routes/todos.js\<close> destructure \<^verbatim>\<open>req.body\<close>, which
  is untyped JSON. A field that the body does not carry destructures to \<^verbatim>\<open>undefined\<close>.
  Numbers are modelled as integers; objects and arrays are left out.
\<close>

datatype jsval = Undefined | Null | Bool bool | Num int | Str string

text \<open>JavaScript's truthiness, as used by \<^verbatim>\<open>||\<close> and \<^verbatim>\<open>? :\<close>.\<close>

fun truthy :: "jsval \<Rightarrow> bool" where
  "truthy Undefined = False"
| "truthy Null = False"
| "truthy (Bool b) = b"
| "truthy (Num n) = (n \<noteq> 0)"
| "truthy (Str s) = (s \<noteq> [])"

section \<open>The Todo document\<close>

text \<open>
  The stored document, with the fields of the interface \<^verbatim>\<open>Todo\<close> in \<^verbatim>\<open>types/todo.ts\<close>
  and the owner reference \<^verbatim>\<open>user\<close> that the handlers set and filter on. Identifiers are
  strings, instants are milliseconds, \<^verbatim>\<open>dueDate\<close> is \<open>None\<close> when undefined.
\<close>

record todo =
  todo_id :: string
  title :: string
  description :: string
  completed :: bool
  priority :: string
  dueDate :: "int option"
  user :: string
  createdAt :: int
  updatedAt :: int

text \<open>
  What a handler has assigned to the paths of a document before \<^verbatim>\<open>save()\<close> casts and
  validates it.
\<close>

record paths =
  p_title :: jsval
  p_description :: jsval
  p_completed :: jsval
  p_priority :: jsval
  p_dueDate :: "int option option"

datatype error = ValidationError string | CastError string | DuplicateKey string

text \<open>
  Modelled from the spec: the schema of \<^verbatim>\<open>models/Todo\<close>, which is not among the sources.
  The spec gives a required title (empty or missing fails validation), a description that
  is empty when omitted, a completed flag that is false on creation, a priority among
  low, medium and high that is medium when omitted, and an optional due date. A value of
  another type than the path's is rejected. An invalid date is \<open>Some None\<close>.
\<close>

definition cast_title :: "jsval \<Rightarrow> error + string" where
  "cast_title v = (case v of
      Str s \<Rightarrow> if s = [] then Inl (ValidationError ''title'') else Inr s
    | Undefined \<Rightarrow> Inl (ValidationError ''title'')
    | Null \<Rightarrow> Inl (ValidationError ''title'')
    | _ \<Rightarrow> Inl (CastError ''title''))"

text \<open>Modelled from the spec: the description path, empty when omitted.\<close>

definition cast_description :: "jsval \<Rightarrow> error + string" where
  "cast_description v = (case v of
      Str s \<Rightarrow> Inr s
    | Undefined \<Rightarrow> Inr []
    | _ \<Rightarrow> Inl (CastError ''description''))"

text \<open>Modelled from the spec: the completed path, false when not set.\<close>

definition cast_completed :: "jsval \<Rightarrow> error + bool" where
  "cast_completed v = (case v of
      Bool b \<Rightarrow> Inr b
    | Undefined \<Rightarrow> Inr False
    | _ \<Rightarrow> Inl (CastError ''completed''))"

text \<open>Modelled from the spec: the priority path, one of three values, medium when omitted.\<close>

definition cast_priority :: "jsval \<Rightarrow> error + string" where
  "cast_priority v = (case v of
      Str s \<Rightarrow> if s \<in> {''low'', ''medium'', ''high''} then Inr s
               else Inl (ValidationError ''priority'')
    | Undefined \<Rightarrow> Inr ''medium''
    | _ \<Rightarrow> Inl (CastError ''priority''))"

text \<open>Modelled from the spec: the optional due date path.\<close>

definition cast_dueDate :: "int option option \<Rightarrow> error + int option" where
  "cast_dueDate v = (case v of
      None \<Rightarrow> Inr None
    | Some None \<Rightarrow> Inl (CastError ''dueDate'')
    | Some (Some d) \<Rightarrow> Inr (Some d))"

text \<open>Sequencing of fallible steps: the first error ends the computation.\<close>

definition and_then :: "'e + 'a \<Rightarrow> ('a \<Rightarrow> 'e + 'b) \<Rightarrow> 'e + 'b" where
  "and_then r f = (case r of Inl e \<Rightarrow> Inl e | Inr a \<Rightarrow> f a)"

text \<open>
  Modelled from the spec: validation of all paths, as \<^verbatim>\<open>save()\<close> runs it. The first
  failing path, in schema order, is the error.
\<close>

definition validate :: "paths \<Rightarrow> error + (string \<times> string \<times> bool \<times> string \<times> int option)" where
  "validate p =
     and_then (cast_title (p_title p)) (\<lambda>t.
     and_then (cast_description (p_description p)) (\<lambda>d.
     and_then (cast_completed (p_completed p)) (\<lambda>c.
     and_then (cast_priority (p_priority p)) (\<lambda>pr.
     and_then (cast_dueDate (p_dueDate p)) (\<lambda>du.
     Inr (t, d, c, pr, du))))))"

section \<open>Requests, responses and the document store\<close>

text \<open>
  The body fields that the handlers destructure, the request as a handler sees it after
  the \<^verbatim>\<open>auth\<close> middleware has set \<^verbatim>\<open>req.user\<close>, and the response it sends. The
  collection is the list of its documents in insertion order. The database is taken to
  answer every query; the only errors a handler catches here are those of \<^verbatim>\<open>save()\<close>.
\<close>

record body =
  b_title :: jsval
  b_description :: jsval
  b_completed :: jsval
  b_priority :: jsval
  b_dueDate :: jsval

text \<open>The body \<^verbatim>\<open>{}\<close>, which carries no field.\<close>

definition no_fields :: body where
  "no_fields = \<lparr>b_title = Undefined, b_description = Undefined, b_completed = Undefined,
                 b_priority = Undefined, b_dueDate = Undefined\<rparr>"

record request =
  req_user :: string
  params_id :: string
  req_body :: body

datatype payload =
    Todos "todo list"
  | Doc todo
  | Message string
  | ServerError string error

record response =
  status :: nat
  json :: payload

type_synonym store = "todo list"

text \<open>
  \<^verbatim>\<open>Todo.find({ user })\<close> and \<^verbatim>\<open>.sort({ createdAt: -1 })\<close>. Documents with equal creation
  times stay in insertion order here; nothing below depends on how ties are ordered.
\<close>

definition find_user :: "string \<Rightarrow> store \<Rightarrow> todo list" where
  "find_user u s = filter (\<lambda>t. user t = u) s"

definition sort_createdAt_desc :: "todo list \<Rightarrow> todo list" where
  "sort_createdAt_desc ts = sort_key (\<lambda>t. - createdAt t) ts"

text \<open>\<^verbatim>\<open>Todo.findOne({ _id, user })\<close>: the first document matching both.\<close>

definition findOne :: "string \<Rightarrow> string \<Rightarrow> store \<Rightarrow> todo option" where
  "findOne i u s = List.find (\<lambda>t. todo_id t = i \<and> user t = u) s"

text \<open>\<^verbatim>\<open>Todo.findByIdAndDelete(id)\<close>: removes the first document with that identifier.\<close>

fun findByIdAndDelete :: "string \<Rightarrow> store \<Rightarrow> store" where
  "findByIdAndDelete i [] = []"
| "findByIdAndDelete i (t # ts) = (if todo_id t = i then ts else t # findByIdAndDelete i ts)"

text \<open>
  \<^verbatim>\<open>save()\<close> of a new document inserts it; the collection's unique index on \<^verbatim>\<open>_id\<close>
  rejects an identifier already present. \<^verbatim>\<open>save()\<close> of a loaded document writes it back in
  place of the stored one.
\<close>

definition insert_doc :: "todo \<Rightarrow> store \<Rightarrow> error + store" where
  "insert_doc t s =
     (if todo_id t \<in> set (map todo_id s) then Inl (DuplicateKey (todo_id t)) else Inr (s @ [t]))"

definition replace_doc :: "todo \<Rightarrow> store \<Rightarrow> store" where
  "replace_doc t s = map (\<lambda>d. if todo_id d = todo_id t then t else d) s"

section \<open>The handlers of server/routes/todos.js\<close>

text \<open>The catch block of every handler: status 500 with the error's message.\<close>

definition server_error :: "error \<Rightarrow> response" where
  "server_error e = \<lparr>status = 500, json = ServerError ''Server error'' e\<rparr>"

definition not_found :: response where
  "not_found = \<lparr>status = 404, json = Message ''Todo not found''\<rparr>"

text \<open>\<^verbatim>\<open>router.get('/')\<close>\<close>

definition get_handler :: "request \<Rightarrow> store \<Rightarrow> response \<times> store" where
  "get_handler req s =
     (\<lparr>status = 200, json = Todos (sort_createdAt_desc (find_user (req_user req) s))\<rparr>, s)"

text \<open>
  \<^verbatim>\<open>router.post('/')\<close>. The clock reading \<open>now\<close>, the identifier \<open>new_id\<close> that the
  driver generates and the date constructor \<open>newDate\<close> (\<open>None\<close> for an invalid date) are
  arguments. The document is constructed from four fields of the body; \<^verbatim>\<open>completed\<close> is
  not passed on. The two timestamps are the schema's: modelled from the spec, both are the
  clock reading when the document is created, and \<^verbatim>\<open>updatedAt\<close> is the clock reading of a
  later \<^verbatim>\<open>save()\<close>.
\<close>

definition new_Todo :: "(jsval \<Rightarrow> int option) \<Rightarrow> body \<Rightarrow> paths" where
  "new_Todo newDate b =
     \<lparr>p_title = b_title b,
      p_description = b_description b,
      p_completed = Undefined,
      p_priority = b_priority b,
      p_dueDate = (if truthy (b_dueDate b) then Some (newDate (b_dueDate b)) else None)\<rparr>"

definition post_handler ::
  "(jsval \<Rightarrow> int option) \<Rightarrow> int \<Rightarrow> string \<Rightarrow> request \<Rightarrow> store \<Rightarrow> response \<times> store" where
  "post_handler newDate now new_id req s =
     (case validate (new_Todo newDate (req_body req)) of
        Inl e \<Rightarrow> (server_error e, s)
      | Inr (t, d, c, pr, du) \<Rightarrow>
          (let todo = \<lparr>todo_id = new_id, title = t, description = d, completed = c,
                       priority = pr, dueDate = du, user = req_user req,
                       createdAt = now, updatedAt = now\<rparr>
           in case insert_doc todo s of
                Inl e \<Rightarrow> (server_error e, s)
              | Inr s' \<Rightarrow> (\<lparr>status = 201, json = Doc todo\<rparr>, s')))"

text \<open>
  \<^verbatim>\<open>router.put('/:id')\<close>. First the five assignments to the loaded document: \<^verbatim>\<open>||\<close> keeps
  the stored value for every falsy operand, \<^verbatim>\<open>!== undefined\<close> only for an absent one.
\<close>

definition assignments :: "(jsval \<Rightarrow> int option) \<Rightarrow> body \<Rightarrow> todo \<Rightarrow> paths" where
  "assignments newDate b todo =
     \<lparr>p_title = (if truthy (b_title b) then b_title b else Str (title todo)),
      p_description = (if b_description b \<noteq> Undefined then b_description b
                       else Str (description todo)),
      p_completed = (if b_completed b \<noteq> Undefined then b_completed b
                     else Bool (completed todo)),
      p_priority = (if truthy (b_priority b) then b_priority b else Str (priority todo)),
      p_dueDate = (if truthy (b_dueDate b) then Some (newDate (b_dueDate b))
                   else map_option Some (dueDate todo))\<rparr>"

definition put_handler ::
  "(jsval \<Rightarrow> int option) \<Rightarrow> int \<Rightarrow> request \<Rightarrow> store \<Rightarrow> response \<times> store" where
  "put_handler newDate now req s =
     (case findOne (params_id req) (req_user req) s of
        None \<Rightarrow> (not_found, s)
      | Some todo \<Rightarrow>
          (case validate (assignments newDate (req_body req) todo) of
             Inl e \<Rightarrow> (server_error e, s)
           | Inr (t, d, c, pr, du) \<Rightarrow>
               (let todo' = todo\<lparr>title := t, description := d, completed := c,
                                 priority := pr, dueDate := du, updatedAt := now\<rparr>
                in (\<lparr>status = 200, json = Doc todo'\<rparr>, replace_doc todo' s))))"

text \<open>\<^verbatim>\<open>router.delete('/:id')\<close>\<close>

definition delete_handler :: "request \<Rightarrow> store \<Rightarrow> response \<times> store" where
  "delete_handler req s =
     (case findOne (params_id req) (req_user req) s of
        None \<Rightarrow> (not_found, s)
      | Some todo \<Rightarrow>
          (\<lparr>status = 200, json = Message ''Todo deleted successfully''\<rparr>,
           findByIdAndDelete (params_id req) s))"

section \<open>The client's API service (services/api.ts)\<close>

text \<open>
  What a \<^verbatim>\<open>fetch\<close> gives back: it rejects, or it answers with \<^verbatim>\<open>response.ok\<close> false or
  true. For a response that is not ok the methods read the \<^verbatim>\<open>message\<close> property of the
  parsed body; for one that is ok they return the parsed body. \<open>None\<close> stands for a body
  that is not JSON, where \<^verbatim>\<open>response.json()\<close> rejects.
\<close>

datatype 'r fetched = NetworkFailure | NotOk "string option option" | Ok "'r option"

datatype exn = Error string | SyntaxError | TypeError

text \<open>\<^verbatim>\<open>error.message || fallback\<close>\<close>

definition message_or :: "string option \<Rightarrow> string \<Rightarrow> string" where
  "message_or m fallback = (case m of None \<Rightarrow> fallback | Some t \<Rightarrow> if t = [] then fallback else t)"

definition ApiService_login :: "'r fetched \<Rightarrow> exn + 'r" where
  "ApiService_login f = (case f of
      NetworkFailure \<Rightarrow> Inl TypeError
    | NotOk None \<Rightarrow> Inl SyntaxError
    | NotOk (Some m) \<Rightarrow> Inl (Error (message_or m ''Login failed''))
    | Ok None \<Rightarrow> Inl SyntaxError
    | Ok (Some r) \<Rightarrow> Inr r)"

definition ApiService_register :: "'r fetched \<Rightarrow> exn + 'r" where
  "ApiService_register f = (case f of
      NetworkFailure \<Rightarrow> Inl TypeError
    | NotOk None \<Rightarrow> Inl SyntaxError
    | NotOk (Some m) \<Rightarrow> Inl (Error (message_or m ''Registration failed''))
    | Ok None \<Rightarrow> Inl SyntaxError
    | Ok (Some r) \<Rightarrow> Inr r)"

definition ApiService_getCurrentUser :: "'r fetched \<Rightarrow> exn + 'r" where
  "ApiService_getCurrentUser f = (case f of
      NetworkFailure \<Rightarrow> Inl TypeError
    | NotOk b \<Rightarrow> Inl (Error ''Failed to get user'')
    | Ok None \<Rightarrow> Inl SyntaxError
    | Ok (Some r) \<Rightarrow> Inr r)"

section \<open>The session manager (contexts/AuthContext.tsx)\<close>

text \<open>
  The in-memory \<^verbatim>\<open>AuthState\<close>, the server's \<^verbatim>\<open>AuthResponse\<close>, and the session: the state
  together with the device's \<^verbatim>\<open>AsyncStorage\<close>, whose operations are taken to succeed. The
  type of a user is left open.
\<close>

record 'u AuthState =
  user :: "'u option"
  token :: "string option"
  isLoading :: bool

record 'u AuthResponse =
  res_user :: 'u
  res_token :: string

record 'u session =
  authState :: "'u AuthState"
  storage :: "string \<rightharpoonup> string"

text \<open>The initial value of \<^verbatim>\<open>useState\<close>, and the value every failure and logout sets.\<close>

definition initializing :: "'u AuthState" where
  "initializing = \<lparr>user = None, token = None, isLoading = True\<rparr>"

definition anonymous :: "'u AuthState" where
  "anonymous = \<lparr>user = None, token = None, isLoading = False\<rparr>"

text \<open>
  The writes of an operation, in the order in which the code awaits them. An operation
  yields its writes and whether its promise resolves or rejects; the writes are performed
  one after the other, and \<open>run\<close> lists the session before the first write and after each.
\<close>

datatype 'u effect = SetItem string string | RemoveItem string | SetAuthState "'u AuthState"

datatype settled = Resolved | Thrown exn

fun perform :: "'u effect \<Rightarrow> 'u session \<Rightarrow> 'u session" where
  "perform (SetItem k v) \<sigma> = \<sigma>\<lparr>storage := (storage \<sigma>)(k \<mapsto> v)\<rparr>"
| "perform (RemoveItem k) \<sigma> = \<sigma>\<lparr>storage := (storage \<sigma>)(k := None)\<rparr>"
| "perform (SetAuthState a) \<sigma> = \<sigma>\<lparr>authState := a\<rparr>"

fun run :: "'u effect list \<Rightarrow> 'u session \<Rightarrow> 'u session list" where
  "run [] \<sigma> = [\<sigma>]"
| "run (e # es) \<sigma> = \<sigma> # run es (perform e \<sigma>)"

definition final :: "'u effect list \<Rightarrow> 'u session \<Rightarrow> 'u session" where
  "final es \<sigma> = last (run es \<sigma>)"

text \<open>
  \<^verbatim>\<open>checkAuthState\<close>, given the answer to \<^verbatim>\<open>GET /auth/me\<close>. The stored token is read
  first; \<^verbatim>\<open>if (token)\<close> is false for no entry and for the empty string.
\<close>

definition checkAuthState :: "'u fetched \<Rightarrow> 'u session \<Rightarrow> 'u effect list \<times> settled" where
  "checkAuthState me \<sigma> =
     (case storage \<sigma> ''token'' of
        None \<Rightarrow> ([SetAuthState anonymous], Resolved)
      | Some tok \<Rightarrow>
          if tok \<noteq> [] then
            (case ApiService_getCurrentUser me of
               Inr u \<Rightarrow> ([SetAuthState \<lparr>user = Some u, token = Some tok, isLoading = False\<rparr>],
                         Resolved)
             | Inl e \<Rightarrow> ([RemoveItem ''token'', SetAuthState anonymous], Resolved))
          else ([SetAuthState anonymous], Resolved))"

text \<open>\<^verbatim>\<open>login\<close> and \<^verbatim>\<open>register\<close>, given the server's answer.\<close>

definition login :: "'u AuthResponse fetched \<Rightarrow> 'u effect list \<times> settled" where
  "login answer =
     (case ApiService_login answer of
        Inr response \<Rightarrow>
          ([SetItem ''token'' (res_token response),
            SetAuthState \<lparr>user = Some (res_user response), token = Some (res_token response),
                          isLoading = False\<rparr>], Resolved)
      | Inl e \<Rightarrow> ([], Thrown e))"

definition register :: "'u AuthResponse fetched \<Rightarrow> 'u effect list \<times> settled" where
  "register answer =
     (case ApiService_register answer of
        Inr response \<Rightarrow>
          ([SetItem ''token'' (res_token response),
            SetAuthState \<lparr>user = Some (res_user response), token = Some (res_token response),
                          isLoading = False\<rparr>], Resolved)
      | Inl e \<Rightarrow> ([], Thrown e))"

definition logout :: "'u effect list \<times> settled" where
  "logout = ([RemoveItem ''token'', SetAuthState anonymous], Resolved)"

section \<open>The view router (app/index.tsx and app/(tabs)/_layout.tsx)\<close>

datatype view = ActivityIndicator | Redirect string | Tabs

definition IndexScreen :: "'u AuthState \<Rightarrow> view" where
  "IndexScreen a =
     (if isLoading a then ActivityIndicator
      else if user a \<noteq> None then Redirect ''/(tabs)''
      else Redirect ''/(auth)/login'')"

definition TabLayout :: "'u AuthState \<Rightarrow> view" where
  "TabLayout a =
     (if isLoading a then ActivityIndicator
      else if user a = None then Redirect ''/(auth)/login''
      else Tabs)"

text \<open>
  Where the entry screen leads: a redirect into the tab group is rendered by the layout of
  that group, which guards the group itself.
\<close>

definition destination :: "'u AuthState \<Rightarrow> view" where
  "destination a =
     (case IndexScreen a of
        Redirect href \<Rightarrow> if href = ''/(tabs)'' then TabLayout a else Redirect href
      | v \<Rightarrow> v)"

section \<open>Invariants of the collection\<close>

text \<open>
  What every stored document satisfies because \<^verbatim>\<open>save()\<close> validated it, and what the
  unique index on \<^verbatim>\<open>_id\<close> gives for the collection.
\<close>

definition valid_todo :: "todo \<Rightarrow> bool" where
  "valid_todo t = (title t \<noteq> [] \<and> priority t \<in> {''low'', ''medium'', ''high''})"

definition well_formed :: "store \<Rightarrow> bool" where
  "well_formed s = (distinct (map todo_id s) \<and> list_all valid_todo s)"

section \<open>Sample data\<close>

definition sample_newDate :: "jsval \<Rightarrow> int option" where
  "sample_newDate v = (case v of Num n \<Rightarrow> Some n | _ \<Rightarrow> None)"

definition alice_todo :: todo where
  "alice_todo = \<lparr>todo_id = ''t1'', title = ''Buy milk'', description = ''two litres'',
                  completed = False, priority = ''high'', dueDate = Some 5000,
                  user = ''alice'', createdAt = 10, updatedAt = 10\<rparr>"

definition bob_todo :: todo where
  "bob_todo = \<lparr>todo_id = ''t2'', title = ''Call home'', description = [],
                completed = False, priority = ''medium'', dueDate = None,
                user = ''bob'', createdAt = 20, updatedAt = 20\<rparr>"

definition sample_store :: store where
  "sample_store = [alice_todo, bob_todo]"

definition carol_todo :: "int \<Rightarrow> string \<Rightarrow> string \<Rightarrow> todo" where
  "carol_todo n i t = \<lparr>todo_id = i, title = t, description = [], completed = False,
                        priority = ''medium'', dueDate = None, user = ''carol'',
                        createdAt = n, updatedAt = n\<rparr>"

definition titled :: "string \<Rightarrow> body" where
  "titled t = no_fields\<lparr>b_title := Str t\<rparr>"

definition clearing :: body where
  "clearing = \<lparr>b_title = Str [], b_description = Str [], b_completed = Bool False,
                b_priority = Null, b_dueDate = Null\<rparr>"

definition request_of :: "string \<Rightarrow> string \<Rightarrow> body \<Rightarrow> request" where
  "request_of u i b = \<lparr>req_user = u, params_id = i, req_body = b\<rparr>"

definition signed_in :: "nat session" where
  "signed_in = \<lparr>authState = \<lparr>user = Some 7, token = Some ''jwt'', isLoading = False\<rparr>,
                 storage = [''token'' \<mapsto> ''jwt'']\<rparr>"

definition starting :: "nat session" where
  "starting = \<lparr>authState = initializing, storage = [''token'' \<mapsto> ''expired'']\<rparr>"

definition signed_out :: "nat session" where
  "signed_out = \<lparr>authState = anonymous, storage = Map.empty\<rparr>"

section \<open>Lookups in the collection\<close>

lemma findOne_other_owner:
  assumes "t \<in> set s" "distinct (map todo_id s)" "todo.user t \<noteq> u"
  shows "findOne (todo_id t) u s = None"
  using assms unfolding findOne_def find_None_iff
  by (auto simp: distinct_map inj_on_def)

lemma findOne_absent:
  "findOne i u (filter (\<lambda>d. todo_id d \<noteq> i) s) = None"
  unfolding findOne_def find_None_iff by auto

lemma findOne_owned:
  assumes "t \<in> set s" "distinct (map todo_id s)"
  shows "findOne (todo_id t) (todo.user t) s = Some t"
  using assms
proof (induction s)
  case Nil
  then show ?case by simp
next
  case (Cons d s)
  show ?case
  proof (cases "d = t")
    case True
    then show ?thesis by (simp add: findOne_def)
  next
    case False
    with Cons.prems have "t \<in> set s" "todo_id d \<noteq> todo_id t" by auto
    with Cons show ?thesis by (simp add: findOne_def)
  qed
qed

lemma findOne_SomeD:
  "findOne i u s = Some t \<Longrightarrow> t \<in> set s \<and> todo_id t = i \<and> todo.user t = u"
  unfolding findOne_def by (auto simp: find_Some_iff)

section \<open>Ownership scoping of update and delete\<close>

text \<open>
  C1. A Todo \<open>t\<close> of user \<open>A\<close> is in the collection, and a request authenticated as another
  user \<open>B\<close> names its identifier. Then update and delete both answer 404 "Todo not found"
  and leave the collection as it was, and the answer is the one the same request gets
  from a collection in which no document has that identifier.
\<close>

theorem other_owner_not_found:
  assumes "t \<in> set s" and "distinct (map todo_id s)"
    and "todo.user t = A" and "B \<noteq> A"
    and "req_user req = B" and "params_id req = todo_id t"
  shows "put_handler newDate now req s = (not_found, s)
       \<and> delete_handler req s = (not_found, s)
       \<and> status not_found = 404
       \<and> fst (put_handler newDate now req s)
           = fst (put_handler newDate now req (filter (\<lambda>d. todo_id d \<noteq> todo_id t) s))
       \<and> fst (delete_handler req s)
           = fst (delete_handler req (filter (\<lambda>d. todo_id d \<noteq> todo_id t) s))"
proof -
  have a: "findOne (params_id req) (req_user req) s = None"
    using assms findOne_other_owner[of t s B] by simp
  have b: "findOne (params_id req) (req_user req) (filter (\<lambda>d. todo_id d \<noteq> todo_id t) s) = None"
    using assms(6) findOne_absent[of "todo_id t"] by simp
  show ?thesis using a b by (simp add: put_handler_def delete_handler_def not_found_def)
qed

theorem other_owner_not_found_witness:
  "alice_todo \<in> set sample_store \<and> distinct (map todo_id sample_store)
   \<and> todo.user alice_todo = ''alice'' \<and> ''bob'' \<noteq> ''alice''
   \<and> put_handler sample_newDate 99 (request_of ''bob'' ''t1'' (titled ''mine'')) sample_store
       = (not_found, sample_store)
   \<and> delete_handler (request_of ''bob'' ''t1'' no_fields) sample_store = (not_found, sample_store)"
proof -
  have h1: "alice_todo \<in> set sample_store" by (simp add: sample_store_def)
  have h2: "distinct (map todo_id sample_store)"
    by (simp add: sample_store_def alice_todo_def bob_todo_def)
  have h3: "todo.user alice_todo = ''alice''" by (simp add: alice_todo_def)
  have h4: "''bob'' \<noteq> ''alice''" by simp
  have i: "todo_id alice_todo = ''t1''" by (simp add: alice_todo_def)
  have p: "put_handler sample_newDate 99 (request_of ''bob'' ''t1'' (titled ''mine'')) sample_store
       = (not_found, sample_store)"
    using other_owner_not_found [OF h1 h2 h3 h4,
        of "request_of ''bob'' ''t1'' (titled ''mine'')" sample_newDate 99] i
    by (simp add: request_of_def)
  have d: "delete_handler (request_of ''bob'' ''t1'' no_fields) sample_store
       = (not_found, sample_store)"
    using other_owner_not_found [OF h1 h2 h3 h4,
        of "request_of ''bob'' ''t1'' no_fields" sample_newDate 99] i
    by (simp add: request_of_def)
  show ?thesis using h1 h2 h3 p d by simp
qed

section \<open>Listing\<close>

lemma sort_newest_last:
  assumes "\<forall>x\<in>set xs. createdAt x < createdAt a"
  shows "sort_createdAt_desc (xs @ [a]) = a # sort_createdAt_desc xs"
  using assms unfolding sort_createdAt_desc_def
  by (induction xs) simp_all

lemma sorted_sort_createdAt_desc:
  "sorted_wrt (\<lambda>a b. createdAt b \<le> createdAt a) (sort_createdAt_desc xs)"
proof -
  have "sorted (map (\<lambda>t. - createdAt t) (sort_createdAt_desc xs))"
    unfolding sort_createdAt_desc_def by (rule sorted_sort_key)
  then show ?thesis by (simp add: sorted_map)
qed

lemma mset_sort_createdAt_desc: "mset (sort_createdAt_desc xs) = mset xs"
  by (simp add: sort_createdAt_desc_def)

lemma post_created:
  assumes "post_handler newDate now new_id req s = (\<lparr>status = 201, json = Doc t\<rparr>, s')"
  shows "s' = s @ [t] \<and> todo.user t = req_user req \<and> createdAt t = now \<and> updatedAt t = now
       \<and> todo_id t = new_id \<and> completed t = False
       \<and> cast_title (b_title (req_body req)) = Inr (title t)
       \<and> cast_description (b_description (req_body req)) = Inr (description t)
       \<and> cast_priority (b_priority (req_body req)) = Inr (priority t)
       \<and> new_id \<notin> set (map todo_id s)"
  using assms
  by (auto simp: post_handler_def Let_def validate_def and_then_def insert_doc_def server_error_def
        cast_completed_def new_Todo_def
      split: sum.splits if_splits)

lemma post_carol:
  "i \<notin> set (map todo_id s) \<Longrightarrow> t \<noteq> [] \<Longrightarrow>
   post_handler sample_newDate n i (request_of ''carol'' [] (titled t)) s
     = (\<lparr>status = 201, json = Doc (carol_todo n i t)\<rparr>, s @ [carol_todo n i t])"
  by (simp add: post_handler_def Let_def validate_def and_then_def cast_title_def server_error_def
      request_of_def no_fields_def titled_def cast_description_def cast_completed_def
      cast_priority_def cast_dueDate_def insert_doc_def carol_todo_def new_Todo_def)

text \<open>
  C2. The list handler answers 200 with exactly the caller's Todos (as a multiset, the
  documents of the collection whose owner is the caller), ordered by creation time
  descending, and leaves the collection as it was. When the caller creates \<open>T1\<close>, \<open>T2\<close>,
  \<open>T3\<close> in that order, at increasing clock readings later than those of the caller's
  earlier Todos, the list is \<open>T3\<close>, \<open>T2\<close>, \<open>T1\<close> followed by the earlier ones; for a
  caller without earlier Todos it is \<open>[T3, T2, T1]\<close>.
\<close>

theorem list_owned_newest_first:
  "(\<exists>ts. get_handler req s = (\<lparr>status = 200, json = Todos ts\<rparr>, s)
         \<and> mset ts = filter_mset (\<lambda>t. todo.user t = req_user req) (mset s)
         \<and> sorted_wrt (\<lambda>a b. createdAt b \<le> createdAt a) ts)
   \<and> ((\<forall>t\<in>set s. todo.user t = req_user req \<longrightarrow> createdAt t < n1) \<and> n1 < n2 \<and> n2 < n3
       \<and> req_user r1 = req_user req \<and> req_user r2 = req_user req \<and> req_user r3 = req_user req
       \<and> post_handler newDate n1 i1 r1 s = (\<lparr>status = 201, json = Doc T1\<rparr>, s1)
       \<and> post_handler newDate n2 i2 r2 s1 = (\<lparr>status = 201, json = Doc T2\<rparr>, s2)
       \<and> post_handler newDate n3 i3 r3 s2 = (\<lparr>status = 201, json = Doc T3\<rparr>, s3)
      \<longrightarrow> get_handler req s3
            = (\<lparr>status = 200,
                json = Todos ([T3, T2, T1] @ sort_createdAt_desc (find_user (req_user req) s))\<rparr>, s3))"
proof (intro conjI impI)
  show "\<exists>ts. get_handler req s = (\<lparr>status = 200, json = Todos ts\<rparr>, s)
         \<and> mset ts = filter_mset (\<lambda>t. todo.user t = req_user req) (mset s)
         \<and> sorted_wrt (\<lambda>a b. createdAt b \<le> createdAt a) ts"
    by (simp add: get_handler_def find_user_def mset_sort_createdAt_desc
        sorted_sort_createdAt_desc)
next
  let ?u = "req_user req"
  assume h: "(\<forall>t\<in>set s. todo.user t = ?u \<longrightarrow> createdAt t < n1) \<and> n1 < n2 \<and> n2 < n3
       \<and> req_user r1 = ?u \<and> req_user r2 = ?u \<and> req_user r3 = ?u
       \<and> post_handler newDate n1 i1 r1 s = (\<lparr>status = 201, json = Doc T1\<rparr>, s1)
       \<and> post_handler newDate n2 i2 r2 s1 = (\<lparr>status = 201, json = Doc T2\<rparr>, s2)
       \<and> post_handler newDate n3 i3 r3 s2 = (\<lparr>status = 201, json = Doc T3\<rparr>, s3)"
  from h post_created[of newDate n1 i1 r1 s T1 s1]
  have 1: "s1 = s @ [T1]" "todo.user T1 = ?u" "createdAt T1 = n1" by simp_all
  from h post_created[of newDate n2 i2 r2 s1 T2 s2]
  have 2: "s2 = s1 @ [T2]" "todo.user T2 = ?u" "createdAt T2 = n2" by simp_all
  from h post_created[of newDate n3 i3 r3 s2 T3 s3]
  have 3: "s3 = s2 @ [T3]" "todo.user T3 = ?u" "createdAt T3 = n3" by simp_all
  let ?old = "find_user ?u s"
  have old: "\<forall>x\<in>set ?old. createdAt x < n1" using h by (simp add: find_user_def)
  have f: "find_user ?u s3 = ((?old @ [T1]) @ [T2]) @ [T3]"
    using 1 2 3 by (simp add: find_user_def)
  have a: "sort_createdAt_desc (?old @ [T1]) = T1 # sort_createdAt_desc ?old"
    using old 1 by (intro sort_newest_last) simp
  have b: "sort_createdAt_desc ((?old @ [T1]) @ [T2]) = T2 # sort_createdAt_desc (?old @ [T1])"
    using old 1 2 h by (intro sort_newest_last) auto
  have c: "sort_createdAt_desc (((?old @ [T1]) @ [T2]) @ [T3])
         = T3 # sort_createdAt_desc ((?old @ [T1]) @ [T2])"
    using old 1 2 3 h by (intro sort_newest_last) auto
  show "get_handler req s3
            = (\<lparr>status = 200,
                json = Todos ([T3, T2, T1] @ sort_createdAt_desc (find_user (req_user req) s))\<rparr>, s3)"
    unfolding get_handler_def f c b a by simp
qed

theorem list_owned_newest_first_witness:
  "(30::int) < 40 \<and> (40::int) < 50
   \<and> post_handler sample_newDate 30 ''c1'' (request_of ''carol'' [] (titled ''one'')) sample_store
       = (\<lparr>status = 201, json = Doc (carol_todo 30 ''c1'' ''one'')\<rparr>,
          sample_store @ [carol_todo 30 ''c1'' ''one''])
   \<and> post_handler sample_newDate 40 ''c2'' (request_of ''carol'' [] (titled ''two''))
        (sample_store @ [carol_todo 30 ''c1'' ''one''])
       = (\<lparr>status = 201, json = Doc (carol_todo 40 ''c2'' ''two'')\<rparr>,
          sample_store @ [carol_todo 30 ''c1'' ''one'', carol_todo 40 ''c2'' ''two''])
   \<and> post_handler sample_newDate 50 ''c3'' (request_of ''carol'' [] (titled ''three''))
        (sample_store @ [carol_todo 30 ''c1'' ''one'', carol_todo 40 ''c2'' ''two''])
       = (\<lparr>status = 201, json = Doc (carol_todo 50 ''c3'' ''three'')\<rparr>,
          sample_store @ [carol_todo 30 ''c1'' ''one'', carol_todo 40 ''c2'' ''two'',
                          carol_todo 50 ''c3'' ''three''])
   \<and> get_handler (request_of ''carol'' [] no_fields)
        (sample_store @ [carol_todo 30 ''c1'' ''one'', carol_todo 40 ''c2'' ''two'',
                         carol_todo 50 ''c3'' ''three''])
       = (\<lparr>status = 200,
           json = Todos [carol_todo 50 ''c3'' ''three'', carol_todo 40 ''c2'' ''two'',
                         carol_todo 30 ''c1'' ''one'']\<rparr>,
          sample_store @ [carol_todo 30 ''c1'' ''one'', carol_todo 40 ''c2'' ''two'',
                          carol_todo 50 ''c3'' ''three''])"
proof -
  let ?T1 = "carol_todo 30 ''c1'' ''one''"
  let ?T2 = "carol_todo 40 ''c2'' ''two''"
  let ?T3 = "carol_todo 50 ''c3'' ''three''"
  let ?req = "request_of ''carol'' [] no_fields"
  have ids: "map todo_id sample_store = [''t1'', ''t2'']"
    by (simp add: sample_store_def alice_todo_def bob_todo_def)
  have p1: "post_handler sample_newDate 30 ''c1'' (request_of ''carol'' [] (titled ''one''))
      sample_store = (\<lparr>status = 201, json = Doc ?T1\<rparr>, sample_store @ [?T1])"
    by (rule post_carol) (simp_all add: ids)
  have p2: "post_handler sample_newDate 40 ''c2'' (request_of ''carol'' [] (titled ''two''))
      (sample_store @ [?T1]) = (\<lparr>status = 201, json = Doc ?T2\<rparr>, sample_store @ [?T1, ?T2])"
    using post_carol [of "''c2''" "sample_store @ [?T1]" "''two''" 40]
    by (simp add: ids carol_todo_def)
  have p3: "post_handler sample_newDate 50 ''c3'' (request_of ''carol'' [] (titled ''three''))
      (sample_store @ [?T1, ?T2])
      = (\<lparr>status = 201, json = Doc ?T3\<rparr>, sample_store @ [?T1, ?T2, ?T3])"
    using post_carol [of "''c3''" "sample_store @ [?T1, ?T2]" "''three''" 50]
    by (simp add: ids carol_todo_def)
  have u: "req_user ?req = ''carol''"
      "req_user (request_of ''carol'' [] (titled ''one'')) = ''carol''"
      "req_user (request_of ''carol'' [] (titled ''two'')) = ''carol''"
      "req_user (request_of ''carol'' [] (titled ''three'')) = ''carol''"
    by (simp_all add: request_of_def)
  have old: "\<forall>t\<in>set sample_store. todo.user t = req_user ?req \<longrightarrow> createdAt t < 30"
    by (simp add: sample_store_def alice_todo_def bob_todo_def request_of_def)
  have none: "find_user ''carol'' sample_store = []"
    by (simp add: find_user_def sample_store_def alice_todo_def bob_todo_def)
  have "get_handler ?req (sample_store @ [?T1, ?T2, ?T3])
      = (\<lparr>status = 200,
          json = Todos ([?T3, ?T2, ?T1] @ sort_createdAt_desc (find_user (req_user ?req) sample_store))\<rparr>,
         sample_store @ [?T1, ?T2, ?T3])"
    using list_owned_newest_first [of ?req sample_store 30 40 50
        "request_of ''carol'' [] (titled ''one'')" "request_of ''carol'' [] (titled ''two'')"
        "request_of ''carol'' [] (titled ''three'')" sample_newDate "''c1''" ?T1
        "sample_store @ [?T1]" "''c2''" ?T2 "sample_store @ [?T1, ?T2]" "''c3''" ?T3
        "sample_store @ [?T1, ?T2, ?T3]", THEN conjunct2]
      old p1 p2 p3 u by simp
  then have g: "get_handler ?req (sample_store @ [?T1, ?T2, ?T3])
      = (\<lparr>status = 200, json = Todos [?T3, ?T2, ?T1]\<rparr>, sample_store @ [?T1, ?T2, ?T3])"
    by (simp add: u none sort_createdAt_desc_def)
  from p1 p2 p3 g show ?thesis by simp
qed

section \<open>Creation\<close>

lemma post_status: "status (fst (post_handler newDate now new_id req s)) \<in> {201, 500}"
  by (auto simp: post_handler_def Let_def server_error_def split: sum.splits prod.splits)

text \<open>
  C3, as the handler has it. A create request whose title is missing, null or the empty
  string fails validation; the handler's catch block reports that as status 500 "Server
  error" with the validation error, and the collection is left as it was. No path of the
  handler answers 400.
\<close>

theorem create_without_title_fails:
  assumes "b_title (req_body req) = Undefined \<or> b_title (req_body req) = Null
         \<or> b_title (req_body req) = Str []"
  shows "post_handler newDate now new_id req s
       = (\<lparr>status = 500, json = ServerError ''Server error'' (ValidationError ''title'')\<rparr>, s)"
  using assms
  by (auto simp: post_handler_def validate_def and_then_def cast_title_def server_error_def
      new_Todo_def)

theorem create_without_title_fails_witness:
  "b_title (req_body (request_of ''alice'' [] (titled []))) = Str []
   \<and> post_handler sample_newDate 99 ''t3'' (request_of ''alice'' [] (titled [])) sample_store
       = (\<lparr>status = 500, json = ServerError ''Server error'' (ValidationError ''title'')\<rparr>,
          sample_store)"
proof -
  have h: "b_title (req_body (request_of ''alice'' [] (titled []))) = Str []"
    by (simp add: request_of_def titled_def)
  then have "b_title (req_body (request_of ''alice'' [] (titled []))) = Undefined
         \<or> b_title (req_body (request_of ''alice'' [] (titled []))) = Null
         \<or> b_title (req_body (request_of ''alice'' [] (titled []))) = Str []" by simp
  from h create_without_title_fails [OF this, of sample_newDate 99 "''t3''" sample_store]
  show ?thesis by simp
qed

text \<open>
  The request \<^verbatim>\<open>POST /api/todos\<close> with body \<^verbatim>\<open>{}\<close> is answered with status 500, not 400.
\<close>

theorem create_without_title_not_400:
  "fst (post_handler sample_newDate 99 ''t3'' (request_of ''alice'' [] no_fields) sample_store)
     = \<lparr>status = 500, json = ServerError ''Server error'' (ValidationError ''title'')\<rparr>
   \<and> status (fst (post_handler sample_newDate 99 ''t3'' (request_of ''alice'' [] no_fields)
        sample_store)) \<noteq> 400"
  by (simp add: post_handler_def validate_def and_then_def cast_title_def server_error_def
      request_of_def no_fields_def new_Todo_def)

text \<open>
  C4. The record a successful create returns has the caller as owner, is not completed,
  has both timestamps at the clock reading of the creation, has priority medium when the
  body carries no priority and the empty description when it carries none, and is the
  document appended to the collection.
\<close>

theorem created_record_fields:
  assumes "post_handler newDate now new_id req s = (\<lparr>status = 201, json = Doc t\<rparr>, s')"
  shows "todo.user t = req_user req \<and> completed t = False
       \<and> createdAt t = now \<and> updatedAt t = now
       \<and> (b_priority (req_body req) = Undefined \<longrightarrow> priority t = ''medium'')
       \<and> (b_description (req_body req) = Undefined \<longrightarrow> description t = [])
       \<and> s' = s @ [t]"
  using post_created [OF assms]
  by (auto simp: cast_priority_def cast_description_def)

theorem created_record_fields_witness:
  "post_handler sample_newDate 30 ''c1'' (request_of ''carol'' [] (titled ''one'')) sample_store
     = (\<lparr>status = 201, json = Doc (carol_todo 30 ''c1'' ''one'')\<rparr>,
        sample_store @ [carol_todo 30 ''c1'' ''one''])
   \<and> todo.user (carol_todo 30 ''c1'' ''one'') = ''carol''
   \<and> completed (carol_todo 30 ''c1'' ''one'') = False
   \<and> createdAt (carol_todo 30 ''c1'' ''one'') = 30
   \<and> updatedAt (carol_todo 30 ''c1'' ''one'') = 30
   \<and> priority (carol_todo 30 ''c1'' ''one'') = ''medium''
   \<and> description (carol_todo 30 ''c1'' ''one'') = []"
proof -
  have p: "post_handler sample_newDate 30 ''c1'' (request_of ''carol'' [] (titled ''one'')) sample_store
     = (\<lparr>status = 201, json = Doc (carol_todo 30 ''c1'' ''one'')\<rparr>,
        sample_store @ [carol_todo 30 ''c1'' ''one''])"
    by (rule post_carol) (simp_all add: sample_store_def alice_todo_def bob_todo_def)
  from p created_record_fields [OF p] show ?thesis
    by (simp add: request_of_def titled_def no_fields_def)
qed

section \<open>Update\<close>

lemma put_updated:
  assumes "findOne (params_id req) (req_user req) s = Some t"
    and "put_handler newDate now req s = (\<lparr>status = 200, json = Doc t'\<rparr>, s')"
  shows "s' = replace_doc t' s \<and> todo_id t' = todo_id t \<and> todo.user t' = todo.user t
       \<and> createdAt t' = createdAt t \<and> updatedAt t' = now"
    and "cast_title (if truthy (b_title (req_body req)) then b_title (req_body req)
                      else Str (title t)) = Inr (title t')"
    and "cast_description (if b_description (req_body req) \<noteq> Undefined
                            then b_description (req_body req) else Str (description t))
           = Inr (description t')"
    and "cast_completed (if b_completed (req_body req) \<noteq> Undefined
                          then b_completed (req_body req) else Bool (completed t))
           = Inr (completed t')"
    and "cast_priority (if truthy (b_priority (req_body req)) then b_priority (req_body req)
                         else Str (priority t)) = Inr (priority t')"
    and "cast_dueDate (if truthy (b_dueDate (req_body req))
                        then Some (newDate (b_dueDate (req_body req)))
                        else map_option Some (dueDate t)) = Inr (dueDate t')"
  using assms
  by (auto simp: put_handler_def Let_def validate_def and_then_def server_error_def
      assignments_def split: sum.splits)

lemma put_outcome:
  assumes "findOne (params_id req) (req_user req) s = Some t"
  shows "(\<exists>e. put_handler newDate now req s = (server_error e, s))
       \<or> (\<exists>t'. put_handler newDate now req s
                 = (\<lparr>status = 200, json = Doc t'\<rparr>, replace_doc t' s))"
proof (cases "validate (assignments newDate (req_body req) t)")
  case (Inl e)
  then have "put_handler newDate now req s = (server_error e, s)"
    using assms by (simp add: put_handler_def)
  then show ?thesis by blast
next
  case (Inr r)
  obtain a b c d e where r: "r = (a, b, c, d, e)" by (cases r) auto
  let ?t' = "t\<lparr>title := a, description := b, completed := c,
               priority := d, dueDate := e, updatedAt := now\<rparr>"
  have "put_handler newDate now req s = (\<lparr>status = 200, json = Doc ?t'\<rparr>, replace_doc ?t' s)"
    using assms Inr r by (simp add: put_handler_def Let_def)
  then show ?thesis by blast
qed

lemma cast_title_nonempty: "cast_title v = Inr x \<Longrightarrow> x \<noteq> []"
  by (auto simp: cast_title_def split: jsval.splits if_splits)

lemma cast_dueDate_kept: "cast_dueDate (map_option Some d) = Inr d"
  by (cases d) (simp_all add: cast_dueDate_def)

lemma cast_dueDate_set: "cast_dueDate (Some v) = Inr d \<Longrightarrow> d \<noteq> None"
  by (auto simp: cast_dueDate_def split: option.splits)

lemma findOne_replace_doc:
  assumes "t \<in> set s" "distinct (map todo_id s)" "todo_id t' = todo_id t"
  shows "findOne (todo_id t') (todo.user t') (replace_doc t' s) = Some t'"
proof -
  have m: "map todo_id (replace_doc t' s) = map todo_id s"
    by (simp add: replace_doc_def)
  have "t' \<in> set (replace_doc t' s)"
    using assms(1,3) by (force simp: replace_doc_def)
  then show ?thesis using assms(2) m findOne_owned[of t' "replace_doc t' s"] by simp
qed

lemma replace_doc_others:
  "todo_id t' = i \<Longrightarrow>
   filter (\<lambda>d. todo_id d \<noteq> i) (replace_doc t' s) = filter (\<lambda>d. todo_id d \<noteq> i) s"
  by (induction s) (auto simp: replace_doc_def)

lemma sample_distinct: "distinct (map todo_id sample_store)"
  by (simp add: sample_store_def alice_todo_def bob_todo_def)

lemma alice_in_sample: "alice_todo \<in> set sample_store"
  by (simp add: sample_store_def)

lemma alice_valid: "valid_todo alice_todo"
  by (simp add: valid_todo_def alice_todo_def)

lemma alice_completes:
  "put_handler sample_newDate 99 (request_of ''alice'' ''t1'' (no_fields\<lparr>b_completed := Bool True\<rparr>))
     sample_store
   = (\<lparr>status = 200, json = Doc (alice_todo\<lparr>completed := True, updatedAt := 99\<rparr>)\<rparr>,
      [alice_todo\<lparr>completed := True, updatedAt := 99\<rparr>, bob_todo])"
  by (simp add: put_handler_def Let_def request_of_def no_fields_def sample_store_def findOne_def
      alice_todo_def bob_todo_def assignments_def validate_def and_then_def cast_title_def
      cast_description_def cast_completed_def cast_priority_def cast_dueDate_def replace_doc_def)

lemma alice_clears:
  "put_handler sample_newDate 99 (request_of ''alice'' ''t1'' clearing) sample_store
   = (\<lparr>status = 200,
       json = Doc (alice_todo\<lparr>description := [], completed := False, updatedAt := 99\<rparr>)\<rparr>,
      [alice_todo\<lparr>description := [], completed := False, updatedAt := 99\<rparr>, bob_todo])"
  by (simp add: put_handler_def Let_def request_of_def clearing_def sample_store_def findOne_def
      alice_todo_def bob_todo_def assignments_def validate_def and_then_def cast_title_def
      cast_description_def cast_completed_def cast_priority_def cast_dueDate_def replace_doc_def)

text \<open>
  C5. For a valid Todo \<open>t\<close> of the caller, an update whose body is exactly
  \<^verbatim>\<open>{completed: true}\<close> succeeds with a record that differs from \<open>t\<close> in the completed flag
  and \<^verbatim>\<open>updatedAt\<close> only, and no other document of the collection changes. For any body, a
  field the body does not carry is unchanged in the record a successful update returns,
  and so are the identifier, the owner and the creation time.
\<close>

theorem update_omitted_fields_unchanged:
  assumes "t \<in> set s" and "distinct (map todo_id s)" and "valid_todo t"
    and "req_user req = todo.user t" and "params_id req = todo_id t"
  shows "(req_body req = no_fields\<lparr>b_completed := Bool True\<rparr> \<longrightarrow>
           (\<exists>t'. put_handler newDate now req s
                   = (\<lparr>status = 200, json = Doc t'\<rparr>, replace_doc t' s)
                \<and> t'\<lparr>updatedAt := updatedAt t\<rparr> = t\<lparr>completed := True\<rparr>
                \<and> filter (\<lambda>d. todo_id d \<noteq> todo_id t) (replace_doc t' s)
                    = filter (\<lambda>d. todo_id d \<noteq> todo_id t) s))
       \<and> (put_handler newDate now req s = (\<lparr>status = 200, json = Doc u\<rparr>, s') \<longrightarrow>
            (b_title (req_body req) = Undefined \<longrightarrow> title u = title t)
          \<and> (b_description (req_body req) = Undefined \<longrightarrow> description u = description t)
          \<and> (b_completed (req_body req) = Undefined \<longrightarrow> completed u = completed t)
          \<and> (b_priority (req_body req) = Undefined \<longrightarrow> priority u = priority t)
          \<and> (b_dueDate (req_body req) = Undefined \<longrightarrow> dueDate u = dueDate t)
          \<and> todo_id u = todo_id t \<and> todo.user u = todo.user t \<and> createdAt u = createdAt t)"
proof (intro conjI impI)
  have f: "findOne (params_id req) (req_user req) s = Some t"
    using assms findOne_owned[of t s] by simp
  {
    assume b: "req_body req = no_fields\<lparr>b_completed := Bool True\<rparr>"
    let ?t' = "t\<lparr>completed := True, updatedAt := now\<rparr>"
    have "put_handler newDate now req s = (\<lparr>status = 200, json = Doc ?t'\<rparr>, replace_doc ?t' s)"
      using f b assms(3)
      by (simp add: put_handler_def Let_def no_fields_def validate_def and_then_def assignments_def
          cast_title_def cast_description_def cast_completed_def cast_priority_def
          cast_dueDate_kept valid_todo_def)
    moreover have "?t'\<lparr>updatedAt := updatedAt t\<rparr> = t\<lparr>completed := True\<rparr>" by simp
    moreover have "filter (\<lambda>d. todo_id d \<noteq> todo_id t) (replace_doc ?t' s)
                    = filter (\<lambda>d. todo_id d \<noteq> todo_id t) s"
      by (rule replace_doc_others) simp
    ultimately show "\<exists>t'. put_handler newDate now req s
                   = (\<lparr>status = 200, json = Doc t'\<rparr>, replace_doc t' s)
                \<and> t'\<lparr>updatedAt := updatedAt t\<rparr> = t\<lparr>completed := True\<rparr>
                \<and> filter (\<lambda>d. todo_id d \<noteq> todo_id t) (replace_doc t' s)
                    = filter (\<lambda>d. todo_id d \<noteq> todo_id t) s"
      by blast
  }
  {
    assume p: "put_handler newDate now req s = (\<lparr>status = 200, json = Doc u\<rparr>, s')"
    note u = put_updated [OF f p]
    show "todo_id u = todo_id t" "todo.user u = todo.user t" "createdAt u = createdAt t"
      using u(1) by simp_all
    { assume "b_title (req_body req) = Undefined"
      with u(2) show "title u = title t" by (simp add: cast_title_def split: if_splits) }
    { assume "b_description (req_body req) = Undefined"
      with u(3) show "description u = description t" by (simp add: cast_description_def) }
    { assume "b_completed (req_body req) = Undefined"
      with u(4) show "completed u = completed t" by (simp add: cast_completed_def) }
    { assume "b_priority (req_body req) = Undefined"
      with u(5) show "priority u = priority t"
        by (simp add: cast_priority_def split: if_splits) }
    { assume "b_dueDate (req_body req) = Undefined"
      with u(6) show "dueDate u = dueDate t" by (simp add: cast_dueDate_kept) }
  }
qed

theorem update_omitted_fields_unchanged_witness:
  "alice_todo \<in> set sample_store \<and> distinct (map todo_id sample_store) \<and> valid_todo alice_todo
   \<and> put_handler sample_newDate 99
        (request_of ''alice'' ''t1'' (no_fields\<lparr>b_completed := Bool True\<rparr>)) sample_store
      = (\<lparr>status = 200, json = Doc (alice_todo\<lparr>completed := True, updatedAt := 99\<rparr>)\<rparr>,
         [alice_todo\<lparr>completed := True, updatedAt := 99\<rparr>, bob_todo])
   \<and> title (alice_todo\<lparr>completed := True, updatedAt := 99\<rparr>) = title alice_todo
   \<and> description (alice_todo\<lparr>completed := True, updatedAt := 99\<rparr>) = description alice_todo
   \<and> priority (alice_todo\<lparr>completed := True, updatedAt := 99\<rparr>) = priority alice_todo
   \<and> dueDate (alice_todo\<lparr>completed := True, updatedAt := 99\<rparr>) = dueDate alice_todo
   \<and> (\<exists>t'. put_handler sample_newDate 99
               (request_of ''alice'' ''t1'' (no_fields\<lparr>b_completed := Bool True\<rparr>)) sample_store
             = (\<lparr>status = 200, json = Doc t'\<rparr>, replace_doc t' sample_store)
           \<and> t'\<lparr>updatedAt := updatedAt alice_todo\<rparr> = alice_todo\<lparr>completed := True\<rparr>)"
proof -
  let ?req = "request_of ''alice'' ''t1'' (no_fields\<lparr>b_completed := Bool True\<rparr>)"
  have u: "req_user ?req = todo.user alice_todo" and i: "params_id ?req = todo_id alice_todo"
    by (simp_all add: request_of_def alice_todo_def)
  have b: "req_body ?req = no_fields\<lparr>b_completed := Bool True\<rparr>"
    by (simp add: request_of_def)
  note inst = update_omitted_fields_unchanged [OF alice_in_sample sample_distinct alice_valid u i,
      of sample_newDate 99 "alice_todo\<lparr>completed := True, updatedAt := 99\<rparr>"
         "[alice_todo\<lparr>completed := True, updatedAt := 99\<rparr>, bob_todo]"]
  from inst b have 1: "\<exists>t'. put_handler sample_newDate 99 ?req sample_store
             = (\<lparr>status = 200, json = Doc t'\<rparr>, replace_doc t' sample_store)
           \<and> t'\<lparr>updatedAt := updatedAt alice_todo\<rparr> = alice_todo\<lparr>completed := True\<rparr>"
    by blast
  from inst alice_completes b
  have 2: "title (alice_todo\<lparr>completed := True, updatedAt := 99\<rparr>) = title alice_todo
     \<and> description (alice_todo\<lparr>completed := True, updatedAt := 99\<rparr>) = description alice_todo
     \<and> priority (alice_todo\<lparr>completed := True, updatedAt := 99\<rparr>) = priority alice_todo
     \<and> dueDate (alice_todo\<lparr>completed := True, updatedAt := 99\<rparr>) = dueDate alice_todo"
    by (simp add: no_fields_def)
  show ?thesis
    using alice_in_sample sample_distinct alice_valid alice_completes 1 2 by blast
qed

section \<open>Session reconstruction at startup\<close>

text \<open>
  C6. The store holds a token (a non-empty one, so that the identity check is made) and
  the check fails: the request is rejected by the network, or answered with a response
  that is not ok, or with a body that cannot be parsed. Then \<^verbatim>\<open>checkAuthState\<close> resolves
  without an error, the stored token is removed, and the state is Anonymous: no user, no
  token, not loading.
\<close>

theorem startup_failed_validation:
  assumes "storage \<sigma> ''token'' = Some tok" and "tok \<noteq> []"
    and "me = NetworkFailure \<or> me = NotOk b \<or> me = Ok None"
  shows "snd (checkAuthState me \<sigma>) = Resolved
       \<and> storage (final (fst (checkAuthState me \<sigma>)) \<sigma>) ''token'' = None
       \<and> authState (final (fst (checkAuthState me \<sigma>)) \<sigma>) = anonymous
       \<and> user (authState (final (fst (checkAuthState me \<sigma>)) \<sigma>)) = None
       \<and> token (authState (final (fst (checkAuthState me \<sigma>)) \<sigma>)) = None
       \<and> \<not> isLoading (authState (final (fst (checkAuthState me \<sigma>)) \<sigma>))"
proof -
  from assms(3) obtain e where "ApiService_getCurrentUser me = Inl e"
    by (auto simp: ApiService_getCurrentUser_def)
  with assms(1,2)
  have "checkAuthState me \<sigma> = ([RemoveItem ''token'', SetAuthState anonymous], Resolved)"
    by (simp add: checkAuthState_def)
  then show ?thesis by (simp add: final_def anonymous_def)
qed

theorem startup_failed_validation_witness:
  "storage starting ''token'' = Some ''expired'' \<and> ''expired'' \<noteq> []
   \<and> snd (checkAuthState (NotOk (Some (Some ''Token is not valid''))) starting) = Resolved
   \<and> storage (final (fst (checkAuthState (NotOk (Some (Some ''Token is not valid''))) starting))
        starting) ''token'' = None
   \<and> authState (final (fst (checkAuthState (NotOk (Some (Some ''Token is not valid''))) starting))
        starting) = anonymous"
proof -
  have h1: "storage starting ''token'' = Some ''expired''" by (simp add: starting_def)
  have h2: "''expired'' \<noteq> []" by simp
  have h3: "(NotOk (Some (Some ''Token is not valid'')) :: nat fetched) = NetworkFailure
     \<or> (NotOk (Some (Some ''Token is not valid'')) :: nat fetched)
        = NotOk (Some (Some ''Token is not valid''))
     \<or> (NotOk (Some (Some ''Token is not valid'')) :: nat fetched) = Ok None" by simp
  from startup_failed_validation [OF h1 h2 h3] h1 h2 show ?thesis by simp
qed

section \<open>Logout\<close>

text \<open>
  C7. From an Authenticated state, logout performs two writes: it first removes the
  stored token while the in-memory state is still the authenticated one, then sets the
  in-memory state to Anonymous. In no state of the execution is the in-memory user absent
  while the store still holds a token, and the last state is Anonymous with an empty
  store entry.
\<close>

theorem logout_clears_store_first:
  assumes "user (authState \<sigma>) \<noteq> None"
  shows "snd logout = Resolved
       \<and> run (fst logout) \<sigma>
           = [\<sigma>,
              \<sigma>\<lparr>storage := (storage \<sigma>)(''token'' := None)\<rparr>,
              \<sigma>\<lparr>storage := (storage \<sigma>)(''token'' := None), authState := anonymous\<rparr>]
       \<and> (\<forall>\<sigma>' \<in> set (run (fst logout) \<sigma>).
             user (authState \<sigma>') = None \<longrightarrow> storage \<sigma>' ''token'' = None)
       \<and> authState (final (fst logout) \<sigma>) = anonymous
       \<and> user (authState (final (fst logout) \<sigma>)) = None
       \<and> token (authState (final (fst logout) \<sigma>)) = None
       \<and> \<not> isLoading (authState (final (fst logout) \<sigma>))
       \<and> storage (final (fst logout) \<sigma>) ''token'' = None"
  using assms by (auto simp: logout_def final_def anonymous_def)

theorem logout_clears_store_first_witness:
  "user (authState signed_in) \<noteq> None \<and> storage signed_in ''token'' = Some ''jwt''
   \<and> map (\<lambda>\<sigma>. (user (authState \<sigma>), storage \<sigma> ''token'')) (run (fst logout) signed_in)
       = [(Some 7, Some ''jwt''), (Some 7, None), (None, None)]
   \<and> final (fst logout) signed_in = signed_out"
proof -
  have h: "user (authState signed_in) \<noteq> None" by (simp add: signed_in_def)
  have e: "([''token'' \<mapsto> ''jwt''] :: string \<rightharpoonup> string)(''token'' := None) = Map.empty"
    by simp
  from logout_clears_store_first [OF h] h e show ?thesis
    by (simp add: signed_in_def signed_out_def final_def anonymous_def logout_def)
qed

section \<open>Login and registration\<close>

text \<open>
  C8. When the answer to a login or register request is anything but an ok response with
  a parsed body, the operation performs no write (the session and the store stay as they
  were, so an Anonymous session stays Anonymous and no token is stored) and its promise
  rejects with the error; for a response that is not ok the error carries the server's
  message. Conversely a call that changes the session resolved.
\<close>

theorem failed_login_changes_nothing:
  "((\<forall>r. answer \<noteq> Ok (Some r)) \<longrightarrow>
       fst (login answer) = [] \<and> (\<exists>e. snd (login answer) = Thrown e)
     \<and> final (fst (login answer)) \<sigma> = \<sigma>
     \<and> fst (register answer) = [] \<and> (\<exists>e. snd (register answer) = Thrown e)
     \<and> final (fst (register answer)) \<sigma> = \<sigma>)
   \<and> (answer = NotOk (Some m) \<longrightarrow>
       snd (login answer) = Thrown (Error (message_or m ''Login failed''))
     \<and> snd (register answer) = Thrown (Error (message_or m ''Registration failed'')))
   \<and> (final (fst (login answer)) \<sigma> \<noteq> \<sigma> \<longrightarrow> snd (login answer) = Resolved)
   \<and> (final (fst (register answer)) \<sigma> \<noteq> \<sigma> \<longrightarrow> snd (register answer) = Resolved)"
proof -
  have a: "(\<forall>r. answer \<noteq> Ok (Some r)) \<Longrightarrow> \<exists>e. ApiService_login answer = Inl e"
    by (cases answer) (auto simp: ApiService_login_def split: option.splits)
  have b: "(\<forall>r. answer \<noteq> Ok (Some r)) \<Longrightarrow> \<exists>e. ApiService_register answer = Inl e"
    by (cases answer) (auto simp: ApiService_register_def split: option.splits)
  have c: "answer = Ok (Some r) \<Longrightarrow> snd (login answer) = Resolved \<and> snd (register answer) = Resolved" for r
    by (simp add: login_def register_def ApiService_login_def ApiService_register_def)
  show ?thesis
  proof (cases "\<exists>r. answer = Ok (Some r)")
    case True
    then show ?thesis using c by auto
  next
    case False
    with a b obtain e e' where "ApiService_login answer = Inl e" "ApiService_register answer = Inl e'"
      by auto
    then have l: "login answer = ([], Thrown e)" and r: "register answer = ([], Thrown e')"
      by (simp_all add: login_def register_def)
    have m: "answer = NotOk (Some m) \<longrightarrow>
       snd (login answer) = Thrown (Error (message_or m ''Login failed''))
     \<and> snd (register answer) = Thrown (Error (message_or m ''Registration failed''))"
      by (simp add: login_def register_def ApiService_login_def ApiService_register_def)
    from l r m show ?thesis by (simp add: final_def)
  qed
qed

theorem failed_login_changes_nothing_witness:
  "fst (login (NotOk (Some (Some ''Invalid credentials'')) :: nat AuthResponse fetched)) = []
   \<and> snd (login (NotOk (Some (Some ''Invalid credentials'')) :: nat AuthResponse fetched))
       = Thrown (Error ''Invalid credentials'')
   \<and> final (fst (login (NotOk (Some (Some ''Invalid credentials''))))) signed_out = signed_out
   \<and> snd (register (NotOk (Some (Some ''User already exists'')) :: nat AuthResponse fetched))
       = Thrown (Error ''User already exists'')
   \<and> final (fst (register (NotOk (Some (Some ''User already exists''))))) signed_out = signed_out
   \<and> storage (final (fst (login (NotOk (Some (Some ''Invalid credentials''))))) signed_out)
        ''token'' = None"
proof -
  have n: "\<forall>r. (NotOk (Some (Some ''Invalid credentials'')) :: nat AuthResponse fetched) \<noteq> Ok (Some r)"
      "\<forall>r. (NotOk (Some (Some ''User already exists'')) :: nat AuthResponse fetched) \<noteq> Ok (Some r)"
    by simp_all
  from n failed_login_changes_nothing
      [of "NotOk (Some (Some ''Invalid credentials''))" signed_out "Some ''Invalid credentials''"]
    failed_login_changes_nothing
      [of "NotOk (Some (Some ''User already exists''))" signed_out "Some ''User already exists''"]
  show ?thesis by (simp add: message_or_def signed_out_def final_def)
qed

section \<open>The view router\<close>

text \<open>
  C9. The entry screen and the tab layout are functions of the session state alone, and
  only of its loading flag and of whether a user is present. While loading both render
  the activity indicator and neither tree; when not loading, without a user both lead to
  the login entry, and with a user the entry screen redirects into the tab group, which
  the layout renders.
\<close>

theorem view_router_pure:
  "(isLoading a \<longrightarrow> IndexScreen a = ActivityIndicator \<and> TabLayout a = ActivityIndicator
        \<and> destination a = ActivityIndicator)
   \<and> (\<not> isLoading a \<and> user a = None \<longrightarrow>
        IndexScreen a = Redirect ''/(auth)/login'' \<and> TabLayout a = Redirect ''/(auth)/login''
        \<and> destination a = Redirect ''/(auth)/login'')
   \<and> (\<not> isLoading a \<and> user a \<noteq> None \<longrightarrow>
        IndexScreen a = Redirect ''/(tabs)'' \<and> TabLayout a = Tabs \<and> destination a = Tabs)
   \<and> (isLoading a = isLoading b \<and> (user a = None) = (user b = None) \<longrightarrow>
        IndexScreen a = IndexScreen b \<and> TabLayout a = TabLayout b
        \<and> destination a = destination b)"
  by (simp add: IndexScreen_def TabLayout_def destination_def)

theorem view_router_pure_witness:
  "isLoading (initializing :: nat AuthState)
   \<and> destination (initializing :: nat AuthState) = ActivityIndicator
   \<and> destination (anonymous :: nat AuthState) = Redirect ''/(auth)/login''
   \<and> IndexScreen (authState signed_in) = Redirect ''/(tabs)''
   \<and> destination (authState signed_in) = Tabs
   \<and> destination (authState signed_in\<lparr>token := None\<rparr>) = destination (authState signed_in)"
proof -
  have 1: "isLoading (initializing :: nat AuthState)" by (simp add: initializing_def)
  have 2: "\<not> isLoading (anonymous :: nat AuthState) \<and> user (anonymous :: nat AuthState) = None"
    by (simp add: anonymous_def)
  have 3: "\<not> isLoading (authState signed_in) \<and> user (authState signed_in) \<noteq> None"
    by (simp add: signed_in_def)
  have 4: "isLoading (authState signed_in\<lparr>token := None\<rparr>) = isLoading (authState signed_in)
      \<and> (user (authState signed_in\<lparr>token := None\<rparr>) = None) = (user (authState signed_in) = None)"
    by simp
  have a: "destination (initializing :: nat AuthState) = ActivityIndicator"
    using 1 view_router_pure [of "initializing :: nat AuthState" "initializing :: nat AuthState"]
    by blast
  have b: "destination (anonymous :: nat AuthState) = Redirect ''/(auth)/login''"
    using 2 view_router_pure [of "anonymous :: nat AuthState" "anonymous :: nat AuthState"]
    by blast
  have c: "IndexScreen (authState signed_in) = Redirect ''/(tabs)''
         \<and> destination (authState signed_in) = Tabs"
    using 3 view_router_pure [of "authState signed_in" "authState signed_in"] by blast
  have d: "destination (authState signed_in\<lparr>token := None\<rparr>) = destination (authState signed_in)"
    using view_router_pure [of "authState signed_in\<lparr>token := None\<rparr>" "authState signed_in",
        THEN conjunct2, THEN conjunct2, THEN conjunct2, THEN mp, OF 4]
    by simp
  from 1 a b c d show ?thesis by blast
qed

section \<open>Falsy fields of an update\<close>

text \<open>
  C10. For a Todo \<open>t\<close> of the caller and the record \<open>u\<close> of a successful update: a title,
  priority or due date that the body carries with a falsy value (absent, null, false, 0
  or the empty string) leaves the stored value; a description that is any string and a
  completed flag that is any boolean, the empty string and false included, are taken over.
  The title of \<open>u\<close> is never empty and a due date that \<open>t\<close> has is never cleared. Whatever
  the outcome of the request, the caller's document is still stored afterwards, with a
  title that is not empty if it was not before, and with a due date if it had one.
\<close>

theorem falsy_fields_keep_stored_value:
  assumes "t \<in> set s" and "distinct (map todo_id s)"
    and "req_user req = todo.user t" and "params_id req = todo_id t"
  shows "(put_handler newDate now req s = (\<lparr>status = 200, json = Doc u\<rparr>, s') \<longrightarrow>
            (\<not> truthy (b_title (req_body req)) \<longrightarrow> title u = title t)
          \<and> (\<not> truthy (b_priority (req_body req)) \<longrightarrow> priority u = priority t)
          \<and> (\<not> truthy (b_dueDate (req_body req)) \<longrightarrow> dueDate u = dueDate t)
          \<and> (b_description (req_body req) = Str d \<longrightarrow> description u = d)
          \<and> (b_completed (req_body req) = Bool c \<longrightarrow> completed u = c)
          \<and> title u \<noteq> []
          \<and> (dueDate t \<noteq> None \<longrightarrow> dueDate u \<noteq> None)
          \<and> s' = replace_doc u s)
       \<and> (\<exists>v. findOne (todo_id t) (todo.user t) (snd (put_handler newDate now req s)) = Some v
              \<and> (title t \<noteq> [] \<longrightarrow> title v \<noteq> [])
              \<and> (dueDate t \<noteq> None \<longrightarrow> dueDate v \<noteq> None))"
proof (intro conjI impI)
  have f: "findOne (params_id req) (req_user req) s = Some t"
    using assms findOne_owned[of t s] by simp
  {
    assume p: "put_handler newDate now req s = (\<lparr>status = 200, json = Doc u\<rparr>, s')"
    note u = put_updated [OF f p]
    show "s' = replace_doc u s" using u(1) by simp
    show "title u \<noteq> []" using u(2) by (rule cast_title_nonempty)
    { assume "\<not> truthy (b_title (req_body req))"
      with u(2) show "title u = title t" by (simp add: cast_title_def split: if_splits) }
    { assume "\<not> truthy (b_priority (req_body req))"
      with u(5) show "priority u = priority t" by (simp add: cast_priority_def split: if_splits) }
    { assume "\<not> truthy (b_dueDate (req_body req))"
      with u(6) show "dueDate u = dueDate t" by (simp add: cast_dueDate_kept) }
    { assume "b_description (req_body req) = Str d"
      with u(3) show "description u = d" by (simp add: cast_description_def) }
    { assume "b_completed (req_body req) = Bool c"
      with u(4) show "completed u = c" by (simp add: cast_completed_def) }
    { assume "dueDate t \<noteq> None"
      with u(6) show "dueDate u \<noteq> None"
        by (cases "truthy (b_dueDate (req_body req))")
           (auto simp: cast_dueDate_kept dest: cast_dueDate_set) }
  }
  from put_outcome [OF f, of newDate now]
  show "\<exists>v. findOne (todo_id t) (todo.user t) (snd (put_handler newDate now req s)) = Some v
              \<and> (title t \<noteq> [] \<longrightarrow> title v \<noteq> [])
              \<and> (dueDate t \<noteq> None \<longrightarrow> dueDate v \<noteq> None)"
  proof
    assume "\<exists>e. put_handler newDate now req s = (server_error e, s)"
    then show ?thesis using assms findOne_owned[of t s] by auto
  next
    assume "\<exists>t'. put_handler newDate now req s = (\<lparr>status = 200, json = Doc t'\<rparr>, replace_doc t' s)"
    then obtain t' where p: "put_handler newDate now req s
        = (\<lparr>status = 200, json = Doc t'\<rparr>, replace_doc t' s)" by blast
    note u = put_updated [OF f p]
    have "findOne (todo_id t') (todo.user t') (replace_doc t' s) = Some t'"
      using assms(1,2) u(1) by (intro findOne_replace_doc[of t]) simp_all
    moreover have "title t' \<noteq> []" using u(2) by (rule cast_title_nonempty)
    moreover have "dueDate t \<noteq> None \<longrightarrow> dueDate t' \<noteq> None"
      using u(6) by (cases "truthy (b_dueDate (req_body req))")
           (auto simp: cast_dueDate_kept dest: cast_dueDate_set)
    ultimately show ?thesis using p u(1) by auto
  qed
qed

theorem falsy_fields_keep_stored_value_witness:
  "alice_todo \<in> set sample_store \<and> distinct (map todo_id sample_store)
   \<and> put_handler sample_newDate 99 (request_of ''alice'' ''t1'' clearing) sample_store
      = (\<lparr>status = 200,
          json = Doc (alice_todo\<lparr>description := [], completed := False, updatedAt := 99\<rparr>)\<rparr>,
         [alice_todo\<lparr>description := [], completed := False, updatedAt := 99\<rparr>, bob_todo])
   \<and> \<not> truthy (b_title clearing) \<and> \<not> truthy (b_priority clearing) \<and> \<not> truthy (b_dueDate clearing)
   \<and> title (alice_todo\<lparr>description := [], completed := False, updatedAt := 99\<rparr>) = ''Buy milk''
   \<and> priority (alice_todo\<lparr>description := [], completed := False, updatedAt := 99\<rparr>) = ''high''
   \<and> dueDate (alice_todo\<lparr>description := [], completed := False, updatedAt := 99\<rparr>) = Some 5000
   \<and> description (alice_todo\<lparr>description := [], completed := False, updatedAt := 99\<rparr>) = []
   \<and> completed (alice_todo\<lparr>description := [], completed := False, updatedAt := 99\<rparr>) = False"
proof -
  let ?req = "request_of ''alice'' ''t1'' clearing"
  let ?u = "alice_todo\<lparr>description := [], completed := False, updatedAt := 99\<rparr>"
  have u: "req_user ?req = todo.user alice_todo" and i: "params_id ?req = todo_id alice_todo"
    by (simp_all add: request_of_def alice_todo_def)
  have f: "\<not> truthy (b_title clearing)" "\<not> truthy (b_priority clearing)"
      "\<not> truthy (b_dueDate clearing)"
      "b_description clearing = Str []" "b_completed clearing = Bool False"
    by (simp_all add: clearing_def)
  have b: "req_body ?req = clearing" by (simp add: request_of_def)
  note inst = falsy_fields_keep_stored_value [OF alice_in_sample sample_distinct u i,
      of sample_newDate 99 ?u "[?u, bob_todo]" "[]" False]
  from inst alice_clears f b
  have "title ?u = title alice_todo \<and> priority ?u = priority alice_todo
      \<and> dueDate ?u = dueDate alice_todo \<and> description ?u = [] \<and> completed ?u = False"
    by simp
  then have "title ?u = ''Buy milk'' \<and> priority ?u = ''high'' \<and> dueDate ?u = Some 5000
      \<and> description ?u = [] \<and> completed ?u = False"
    by (simp add: alice_todo_def)
  then show ?thesis
    using alice_in_sample sample_distinct alice_clears f by blast
qed

section \<open>The invariants hold of every collection the handlers produce\<close>

lemma cast_priority_valid: "cast_priority v = Inr p \<Longrightarrow> p \<in> {''low'', ''medium'', ''high''}"
  by (auto simp: cast_priority_def split: jsval.splits if_splits)

lemma well_formed_empty: "well_formed []"
  by (simp add: well_formed_def)

lemma post_outcome:
  "(\<exists>e. post_handler newDate now new_id req s = (server_error e, s))
   \<or> (\<exists>t. post_handler newDate now new_id req s = (\<lparr>status = 201, json = Doc t\<rparr>, s @ [t]))"
proof (cases "validate (new_Todo newDate (req_body req))")
  case (Inl e)
  then have "post_handler newDate now new_id req s = (server_error e, s)"
    by (simp add: post_handler_def)
  then show ?thesis by blast
next
  case (Inr r)
  obtain a b c d e where r: "r = (a, b, c, d, e)" by (cases r) auto
  show ?thesis
  proof (cases "new_id \<in> set (map todo_id s)")
    case True
    with Inr r have "post_handler newDate now new_id req s = (server_error (DuplicateKey new_id), s)"
      by (simp add: post_handler_def Let_def insert_doc_def)
    then show ?thesis by blast
  next
    case False
    with Inr r show ?thesis by (simp add: post_handler_def Let_def insert_doc_def)
  qed
qed

lemma post_well_formed:
  assumes "well_formed s"
  shows "well_formed (snd (post_handler newDate now new_id req s))"
  using post_outcome [of newDate now new_id req s]
proof
  assume "\<exists>e. post_handler newDate now new_id req s = (server_error e, s)"
  with assms show ?thesis by auto
next
  assume "\<exists>t. post_handler newDate now new_id req s = (\<lparr>status = 201, json = Doc t\<rparr>, s @ [t])"
  then obtain t where p: "post_handler newDate now new_id req s
      = (\<lparr>status = 201, json = Doc t\<rparr>, s @ [t])" by blast
  note c = post_created [OF p]
  have "valid_todo t"
    using c cast_title_nonempty cast_priority_valid unfolding valid_todo_def by blast
  moreover have "todo_id t \<notin> set (map todo_id s)" using c by simp
  ultimately show ?thesis using assms p by (simp add: well_formed_def)
qed

lemma put_well_formed:
  assumes "well_formed s"
  shows "well_formed (snd (put_handler newDate now req s))"
proof (cases "findOne (params_id req) (req_user req) s")
  case None
  with assms show ?thesis by (simp add: put_handler_def)
next
  case (Some t)
  from put_outcome [OF Some, of newDate now] show ?thesis
  proof
    assume "\<exists>e. put_handler newDate now req s = (server_error e, s)"
    with assms show ?thesis by auto
  next
    assume "\<exists>t'. put_handler newDate now req s
        = (\<lparr>status = 200, json = Doc t'\<rparr>, replace_doc t' s)"
    then obtain t' where p: "put_handler newDate now req s
        = (\<lparr>status = 200, json = Doc t'\<rparr>, replace_doc t' s)" by blast
    note u = put_updated [OF Some p]
    have v: "valid_todo t'"
      using u(2) u(5) cast_title_nonempty cast_priority_valid unfolding valid_todo_def by blast
    have "map todo_id (replace_doc t' s) = map todo_id s"
      by (simp add: replace_doc_def)
    moreover have "list_all valid_todo (replace_doc t' s)"
      using assms v by (auto simp: well_formed_def replace_doc_def list_all_iff)
    ultimately show ?thesis using assms p by (simp add: well_formed_def)
  qed
qed

lemma set_findByIdAndDelete: "set (findByIdAndDelete i s) \<subseteq> set s"
  by (induction s) auto

lemma distinct_findByIdAndDelete:
  "distinct (map todo_id s) \<Longrightarrow> distinct (map todo_id (findByIdAndDelete i s))"
proof (induction s)
  case Nil
  then show ?case by simp
next
  case (Cons d s)
  then show ?case using set_findByIdAndDelete [of i s] by auto
qed

lemma delete_well_formed:
  assumes "well_formed s"
  shows "well_formed (snd (delete_handler req s))"
proof (cases "findOne (params_id req) (req_user req) s")
  case None
  with assms show ?thesis by (simp add: delete_handler_def)
next
  case (Some t)
  have "list_all valid_todo (findByIdAndDelete (params_id req) s)"
    using assms set_findByIdAndDelete [of "params_id req" s]
    by (auto simp: well_formed_def list_all_iff)
  with assms Some show ?thesis
    by (simp add: delete_handler_def well_formed_def distinct_findByIdAndDelete)
qed

lemma findByIdAndDelete_removes:
  "distinct (map todo_id s) \<Longrightarrow> findByIdAndDelete i s = filter (\<lambda>d. todo_id d \<noteq> i) s"
proof (induction s)
  case Nil
  then show ?case by simp
next
  case (Cons d s)
  from Cons.prems have "todo_id d \<notin> todo_id ` set s" by simp
  then have "\<forall>x\<in>set s. todo_id x \<noteq> todo_id d" by (metis image_eqI)
  then have "todo_id d = i \<Longrightarrow> filter (\<lambda>d. todo_id d \<noteq> i) s = s"
    by (simp add: filter_id_conv)
  with Cons show ?case by auto
qed

end
